theory Spec2Isabelle
  imports Main "HOL-Library.Word"
begin

section \<open>JavaScript strings\<close>

text \<open>
  A JavaScript string is a sequence of UTF-16 code units. \<open>u\<close> embeds an ASCII
  literal of the source, such as \<^verbatim>\<open>"Skill,Embedding\n"\<close>.
\<close>

type_synonym jschar = "16 word"
type_synonym jsstring = "jschar list"

definition u :: "string \<Rightarrow> jsstring" where
  "u s = map (\<lambda>c. of_nat (of_char c)) s"

definition LF :: jschar where "LF = 0x0A"
definition COMMA :: jschar where "COMMA = 0x2C"
definition QUOTE :: jschar where "QUOTE = 0x22"
definition SPACE :: jschar where "SPACE = 0x20"

text \<open>
  The characters that \<^verbatim>\<open>String.prototype.trim\<close> removes: ECMAScript WhiteSpace
  and LineTerminator.
\<close>

definition is_line_terminator :: "jschar \<Rightarrow> bool" where
  "is_line_terminator c \<longleftrightarrow> c = 0x0A \<or> c = 0x0D \<or> c = 0x2028 \<or> c = 0x2029"

definition is_whitespace :: "jschar \<Rightarrow> bool" where
  "is_whitespace c \<longleftrightarrow>
     c = 0x09 \<or> c = 0x0B \<or> c = 0x0C \<or> c = 0x20 \<or> c = 0xA0 \<or> c = 0xFEFF \<or>
     c = 0x1680 \<or> (0x2000 \<le> c \<and> c \<le> 0x200A) \<or> c = 0x202F \<or> c = 0x205F \<or>
     c = 0x3000 \<or> is_line_terminator c"

text \<open>\<^verbatim>\<open>!row.trim()\<close>: the trimmed row is the empty string.\<close>

definition is_blank :: "jsstring \<Rightarrow> bool" where
  "is_blank row = list_all is_whitespace row"

text \<open>
  \<^verbatim>\<open>s.split(sep)\<close> for a separator of one code unit: the pieces between the
  separators, in order; the empty string gives one empty piece.
\<close>

fun split_on :: "'a \<Rightarrow> 'a list \<Rightarrow> 'a list list" where
  "split_on sep [] = [[]]"
| "split_on sep (c # cs) =
     (if c = sep then [] # split_on sep cs
      else (case split_on sep cs of
              p # ps \<Rightarrow> (c # p) # ps
            | [] \<Rightarrow> [[c]]))"

text \<open>
  \<^verbatim>\<open>row.split(/,(.+)/)\<close>, of which the source keeps the first two elements: the
  regular expression matches at the first comma that is followed by at least one
  character other than a line terminator (\<open>.\<close> does not match those), and the group
  captures the longest run of such characters. The first element is the text before the
  match, the second the capture. Without a match the array has the row as its only
  element, and the second variable of the destructuring is undefined (\<open>None\<close>).
\<close>

fun split_first_comma :: "jsstring \<Rightarrow> jsstring \<times> jsstring option" where
  "split_first_comma [] = ([], None)"
| "split_first_comma (c # cs) =
     (if c = COMMA \<and> takeWhile (\<lambda>d. \<not> is_line_terminator d) cs \<noteq> []
      then ([], Some (takeWhile (\<lambda>d. \<not> is_line_terminator d) cs))
      else (case split_first_comma cs of (name, embeddingStr) \<Rightarrow> (c # name, embeddingStr)))"

text \<open>
  The rows on which that regular expression has no match: every comma is the last
  character of the row or is followed by a line terminator.
\<close>

fun dead_commas :: "jsstring \<Rightarrow> bool" where
  "dead_commas [] = True"
| "dead_commas [c] = True"
| "dead_commas (c # d # cs) = ((is_line_terminator d \<or> c \<noteq> COMMA) \<and> dead_commas (d # cs))"

section \<open>Data model\<close>

text \<open>
  The numbers of a vector are kept abstract (type \<open>'n\<close>): \<^verbatim>\<open>Number\<close>, which reads
  a token, and the effect of a JSON round trip on a number (\<^verbatim>\<open>NaN\<close> and the
  infinities are written as \<^verbatim>\<open>null\<close>) are parameters of the environment.
\<close>

record 'n entry =
  skill :: jsstring
  embedding :: "'n list"

record 'n row =
  skill_name :: jsstring
  embedding_vector :: "'n list"

text \<open>The object of class \<^verbatim>\<open>EmbeddingDatabaseService\<close>.\<close>

record 'n service =
  isOfflineMode :: bool
  initialized :: bool
  embeddings :: "'n entry list"

definition constructor :: "'n service" where
  "constructor = \<lparr>isOfflineMode = False, initialized = False, embeddings = []\<rparr>"

section \<open>The collaborators\<close>

text \<open>
  The storage keys \<^verbatim>\<open>"@embeddings_last_sync"\<close>, \<^verbatim>\<open>"@embeddings_offline_mode"\<close>,
  \<^verbatim>\<open>"@embeddings_cache"\<close> and \<^verbatim>\<open>"@skill_names_cache"\<close>.
\<close>

datatype key = LAST_SYNC_KEY | OFFLINE_MODE_KEY | EMBEDDINGS_CACHE_KEY | SKILL_NAMES_CACHE_KEY

text \<open>
  A string held by the key-value store is only ever tested for truthiness and given to
  \<^verbatim>\<open>JSON.parse\<close>, so it is represented by what those two do with it: the empty
  string, a text that \<^verbatim>\<open>JSON.parse\<close> rejects, or the JSON text of a value.
  \<^verbatim>\<open>JSON.stringify v\<close> is \<open>Json v\<close>. Under each key the store is taken to hold
  values of the type the service writes there.
\<close>

datatype 'a stored = Empty | Malformed | Json 'a

datatype event =
  StoreGet key | StoreSet key | FileInfo | FileWrite | FileRead | RemoteSelect

text \<open>
  The mutable world outside the object: the four keys of \<^verbatim>\<open>mmkvStorage\<close>, the
  files, and the trace of the input/output operations performed so far.
\<close>

record 'n world =
  last_sync :: "int stored option"
  offline_mode :: "bool stored option"
  embeddings_cache :: "'n entry list stored option"
  skill_names_cache :: "jsstring list stored option"
  files :: "string \<Rightarrow> jsstring option"
  trace :: "event list"

text \<open>The answer \<^verbatim>\<open>{ data, error }\<close> of the remote query.\<close>

record 'n reply =
  data :: "'n row list option"
  error :: "jsstring option"

text \<open>
  What the service cannot decide: whether the k-th input/output operation of the run
  fails (throws or rejects), what \<^verbatim>\<open>Date.now()\<close> reads after k operations, what
  the remote store answers to a query issued as the k-th operation, the platform, and the
  two number functions.
\<close>

record 'n env =
  fault :: "nat \<Rightarrow> bool"
  clock :: "nat \<Rightarrow> int"
  remote :: "nat \<Rightarrow> 'n reply"
  os_web :: bool
  documentDirectory :: string
  Number :: "jsstring \<Rightarrow> 'n"
  jsonify :: "'n \<Rightarrow> 'n"

datatype exn = StoreError | SyntaxError | FileError

text \<open>One input/output operation: it is recorded, and fails when the environment says so.\<close>

definition io :: "'n env \<Rightarrow> event \<Rightarrow> 'n world \<Rightarrow> bool \<times> 'n world" where
  "io env ev w = (fault env (length (trace w)), w\<lparr>trace := trace w @ [ev]\<rparr>)"

definition now :: "'n env \<Rightarrow> 'n world \<Rightarrow> int" where
  "now env w = clock env (length (trace w))"

text \<open>
  Modelled from the spec: \<^verbatim>\<open>mmkvStorage\<close> is exported by the module
  \<^verbatim>\<open>./supabase\<close>, which is not among the sources. The specification describes it as a
  persisted key-value store with \<^verbatim>\<open>get(key) -> string|absent\<close> and
  \<^verbatim>\<open>set(key, string) -> void\<close>, whose operations may fail.

  \<^verbatim>\<open>mmkvStorage.getString(key)\<close>, reading the field \<open>sel\<close> that holds the key.
\<close>

definition getString ::
  "'n env \<Rightarrow> key \<Rightarrow> ('n world \<Rightarrow> 'a stored option) \<Rightarrow> 'n world \<Rightarrow> (exn + 'a stored option) \<times> 'n world" where
  "getString env k sel w =
     (case io env (StoreGet k) w of
        (True, w') \<Rightarrow> (Inl StoreError, w')
      | (False, w') \<Rightarrow> (Inr (sel w'), w'))"

text \<open>
  Modelled from the spec: \<^verbatim>\<open>mmkvStorage.set(key, string)\<close> of the same module, where
  \<open>upd\<close> stores the string under the key.
\<close>

definition set_string ::
  "'n env \<Rightarrow> key \<Rightarrow> ('n world \<Rightarrow> 'n world) \<Rightarrow> 'n world \<Rightarrow> (exn + unit) \<times> 'n world" where
  "set_string env k upd w =
     (case io env (StoreSet k) w of
        (True, w') \<Rightarrow> (Inl StoreError, w')
      | (False, w') \<Rightarrow> (Inr (), upd w'))"

text \<open>\<^verbatim>\<open>str ? JSON.parse(str) : dflt\<close>\<close>

fun parse_or :: "'a \<Rightarrow> 'a stored option \<Rightarrow> exn + 'a" where
  "parse_or dflt None = Inr dflt"
| "parse_or dflt (Some Empty) = Inr dflt"
| "parse_or dflt (Some Malformed) = Inl SyntaxError"
| "parse_or dflt (Some (Json v)) = Inr v"

section \<open>The service\<close>

definition ONE_HOUR :: int where
  "ONE_HOUR = 60 * 60 * 1000"

definition setOfflineMode ::
  "'n env \<Rightarrow> bool \<Rightarrow> 'n service \<Rightarrow> 'n world \<Rightarrow> (exn + unit) \<times> 'n service \<times> 'n world" where
  "setOfflineMode env isOffline s w =
     (let s1 = s\<lparr>isOfflineMode := isOffline\<rparr>
      in case set_string env OFFLINE_MODE_KEY (\<lambda>w. w\<lparr>offline_mode := Some (Json isOffline)\<rparr>) w of
           (Inl e, w1) \<Rightarrow> (Inl e, s1, w1)
         | (Inr _, w1) \<Rightarrow> (Inr (), s1, w1))"

definition getOfflineMode :: "'n service \<Rightarrow> bool" where
  "getOfflineMode s = isOfflineMode s"

subsection \<open>loadFromCsv\<close>

definition csvPath :: "'n env \<Rightarrow> string" where
  "csvPath env =
     (if os_web env then ''./components/ai/embeddings.csv''
      else documentDirectory env @ ''embeddings.csv'')"

definition header :: jsstring where
  "header = u ''Skill,Embedding'' @ [LF]"

text \<open>The body of the loop over the rows, from the second row on.\<close>

fun parse_rows :: "(jsstring \<Rightarrow> 'n) \<Rightarrow> jsstring list \<Rightarrow> 'n entry list" where
  "parse_rows num [] = []"
| "parse_rows num (r # rs) =
     (if is_blank r then parse_rows num rs
      else (case split_first_comma r of
              (name, None) \<Rightarrow> parse_rows num rs
            | (name, Some embeddingStr) \<Rightarrow>
                if name = [] then parse_rows num rs
                else \<lparr>skill = name,
                      embedding = map num (split_on SPACE (filter (\<lambda>c. c \<noteq> QUOTE) embeddingStr))\<rparr>
                     # parse_rows num rs))"

definition parse_csv :: "(jsstring \<Rightarrow> 'n) \<Rightarrow> jsstring \<Rightarrow> 'n entry list" where
  "parse_csv num content = parse_rows num (drop 1 (split_on LF content))"

text \<open>What \<^verbatim>\<open>JSON.parse(JSON.stringify(parsed))\<close> is.\<close>

definition jsonify_entries :: "'n env \<Rightarrow> 'n entry list \<Rightarrow> 'n entry list" where
  "jsonify_entries env es = map (\<lambda>e. e\<lparr>embedding := map (jsonify env) (embedding e)\<rparr>) es"

text \<open>
  The part of \<open>loadFromCsv\<close> that makes sure the file exists on a native platform. A
  failure of \<^verbatim>\<open>getInfoAsync\<close> leaves the function through the outer handler; a
  failure of the write is logged only.
\<close>

definition ensure_file :: "'n env \<Rightarrow> 'n world \<Rightarrow> (exn + unit) \<times> 'n world" where
  "ensure_file env w =
     (if os_web env then (Inr (), w)
      else (case io env FileInfo w of
              (True, w1) \<Rightarrow> (Inl FileError, w1)
            | (False, w1) \<Rightarrow>
                if files w1 (csvPath env) \<noteq> None then (Inr (), w1)
                else (case io env FileWrite w1 of
                        (True, w2) \<Rightarrow> (Inr (), w2)
                      | (False, w2) \<Rightarrow>
                          (Inr (), w2\<lparr>files := (files w2)(csvPath env \<mapsto> header)\<rparr>))))"

text \<open>\<^verbatim>\<open>FileSystem.readAsStringAsync(csvPath)\<close>; a file that is not there cannot be read.\<close>

definition readAsStringAsync :: "'n env \<Rightarrow> 'n world \<Rightarrow> (exn + jsstring) \<times> 'n world" where
  "readAsStringAsync env w =
     (case io env FileRead w of
        (True, w1) \<Rightarrow> (Inl FileError, w1)
      | (False, w1) \<Rightarrow>
          (case files w1 (csvPath env) of
             None \<Rightarrow> (Inl FileError, w1)
           | Some content \<Rightarrow> (Inr content, w1)))"

definition loadFromCsv ::
  "'n env \<Rightarrow> 'n service \<Rightarrow> 'n world \<Rightarrow> 'n entry list \<times> 'n service \<times> 'n world" where
  "loadFromCsv env s w =
     (case ensure_file env w of
        (Inl e, w1) \<Rightarrow> ([], s, w1)
      | (Inr _, w1) \<Rightarrow>
          (case readAsStringAsync env w1 of
             (Inl e, w2) \<Rightarrow> ([], s, w2)
           | (Inr content, w2) \<Rightarrow>
               (let parsed = parse_csv (Number env) content;
                    s1 = s\<lparr>embeddings := parsed\<rparr>
                in case set_string env EMBEDDINGS_CACHE_KEY
                          (\<lambda>w. w\<lparr>embeddings_cache := Some (Json (jsonify_entries env parsed))\<rparr>) w2 of
                     (Inl e, w3) \<Rightarrow> ([], s1, w3)
                   | (Inr _, w3) \<Rightarrow> (parsed, s1, w3))))"

subsection \<open>loadCachedEmbeddings\<close>

definition loadCachedEmbeddings ::
  "'n env \<Rightarrow> 'n service \<Rightarrow> 'n world \<Rightarrow> 'n entry list \<times> 'n service \<times> 'n world" where
  "loadCachedEmbeddings env s w =
     (case getString env EMBEDDINGS_CACHE_KEY embeddings_cache w of
        (Inl e, w1) \<Rightarrow> ([], s, w1)
      | (Inr None, w1) \<Rightarrow>
          (case loadFromCsv env s w1 of (_, s2, w2) \<Rightarrow> (embeddings s2, s2, w2))
      | (Inr (Some Empty), w1) \<Rightarrow>
          (case loadFromCsv env s w1 of (_, s2, w2) \<Rightarrow> (embeddings s2, s2, w2))
      | (Inr (Some Malformed), w1) \<Rightarrow> ([], s, w1)
      | (Inr (Some (Json es)), w1) \<Rightarrow> (es, s\<lparr>embeddings := es\<rparr>, w1))"

subsection \<open>initialize\<close>

definition initialize ::
  "'n env \<Rightarrow> 'n service \<Rightarrow> 'n world \<Rightarrow> (exn + unit) \<times> 'n service \<times> 'n world" where
  "initialize env s w =
     (if initialized s then (Inr (), s, w)
      else (case getString env OFFLINE_MODE_KEY offline_mode w of
              (Inl e, w1) \<Rightarrow> (Inl e, s, w1)
            | (Inr offlineModeStr, w1) \<Rightarrow>
                (case parse_or False offlineModeStr of
                   Inl e \<Rightarrow> (Inl e, s, w1)
                 | Inr b \<Rightarrow>
                     (case loadCachedEmbeddings env (s\<lparr>isOfflineMode := b\<rparr>) w1 of
                        (_, s2, w2) \<Rightarrow> (Inr (), s2\<lparr>initialized := True\<rparr>, w2)))))"

subsection \<open>syncFromCloud\<close>

text \<open>
  The in-memory set is always an array, which is truthy, so
  \<^verbatim>\<open>this.embeddings || []\<close> is \<^verbatim>\<open>this.embeddings\<close>. A query that throws and a
  store write that throws both end in the handler, which returns the in-memory set as it
  is at that moment.
\<close>

definition to_entry :: "'n row \<Rightarrow> 'n entry" where
  "to_entry item = \<lparr>skill = skill_name item, embedding = embedding_vector item\<rparr>"

definition syncFromCloud ::
  "'n env \<Rightarrow> 'n service \<Rightarrow> 'n world \<Rightarrow> 'n entry list \<times> 'n service \<times> 'n world" where
  "syncFromCloud env s w =
     (let answer = remote env (length (trace w))
      in case io env RemoteSelect w of
           (True, w1) \<Rightarrow> (embeddings s, s, w1)
         | (False, w1) \<Rightarrow>
             if error answer \<noteq> None then (embeddings s, s, w1)
             else (case data answer of
                     None \<Rightarrow> (embeddings s, s, w1)
                   | Some rows \<Rightarrow>
                       if length rows > 0 then
                         (let s1 = s\<lparr>embeddings := map to_entry rows\<rparr>;
                              skillNamesOnly = map skill_name rows
                          in case set_string env LAST_SYNC_KEY
                                    (\<lambda>w. w\<lparr>last_sync := Some (Json (now env w1))\<rparr>) w1 of
                               (Inl e, w2) \<Rightarrow> (embeddings s1, s1, w2)
                             | (Inr _, w2) \<Rightarrow>
                                 (case set_string env SKILL_NAMES_CACHE_KEY
                                    (\<lambda>w. w\<lparr>skill_names_cache := Some (Json skillNamesOnly)\<rparr>) w2 of
                                    (Inl e, w3) \<Rightarrow> (embeddings s1, s1, w3)
                                  | (Inr _, w3) \<Rightarrow> (embeddings s1, s1, w3)))
                       else (embeddings s, s, w1)))"

subsection \<open>getEmbeddings\<close>

text \<open>
  The last part of \<open>getEmbeddings\<close>: \<^verbatim>\<open>if (!this.isOfflineMode) { ... } return this.embeddings\<close>.
\<close>

definition sync_if_stale ::
  "'n env \<Rightarrow> 'n service \<Rightarrow> 'n world \<Rightarrow> (exn + 'n entry list) \<times> 'n service \<times> 'n world" where
  "sync_if_stale env s w =
     (if \<not> isOfflineMode s then
        (case getString env LAST_SYNC_KEY last_sync w of
           (Inl e, w1) \<Rightarrow> (Inl e, s, w1)
         | (Inr lastSyncStr, w1) \<Rightarrow>
             (case parse_or 0 lastSyncStr of
                Inl e \<Rightarrow> (Inl e, s, w1)
              | Inr lastSync \<Rightarrow>
                  if now env w1 - lastSync > ONE_HOUR then
                    (case syncFromCloud env s w1 of (r, s2, w2) \<Rightarrow> (Inr r, s2, w2))
                  else (Inr (embeddings s), s, w1)))
      else (Inr (embeddings s), s, w))"

definition getEmbeddings ::
  "'n env \<Rightarrow> 'n service \<Rightarrow> 'n world \<Rightarrow> (exn + 'n entry list) \<times> 'n service \<times> 'n world" where
  "getEmbeddings env s w =
     (case initialize env s w of
        (Inl e, s1, w1) \<Rightarrow> (Inl e, s1, w1)
      | (Inr _, s1, w1) \<Rightarrow>
          (case (if length (embeddings s1) = 0 then loadCachedEmbeddings env s1 w1
                 else (embeddings s1, s1, w1)) of
             (_, s2, w2) \<Rightarrow> sync_if_stale env s2 w2))"

definition remote_queries :: "'n world \<Rightarrow> nat" where
  "remote_queries w = count_list (trace w) RemoteSelect"

text \<open>A run of \<open>n\<close> calls of \<open>getEmbeddings\<close>, one after the other.\<close>

fun run_getEmbeddings :: "'n env \<Rightarrow> nat \<Rightarrow> 'n service \<Rightarrow> 'n world \<Rightarrow> 'n service \<times> 'n world" where
  "run_getEmbeddings env 0 s w = (s, w)"
| "run_getEmbeddings env (Suc n) s w =
     (case getEmbeddings env s w of (_, s', w') \<Rightarrow> run_getEmbeddings env n s' w')"

text \<open>The events of a call that took the world from \<open>w\<close> to \<open>w'\<close>.\<close>

definition events_since :: "'n world \<Rightarrow> 'n world \<Rightarrow> event list" where
  "events_since w w' = drop (length (trace w)) (trace w')"

section \<open>The specification's reading of the embedding field\<close>

text \<open>
  The specification speaks of the whitespace-separated tokens of the embedding field: the
  maximal runs of characters that are not whitespace. This definition follows its words;
  the source splits at single spaces (\<open>split_on SPACE\<close> in \<open>parse_rows\<close>).
\<close>

fun split_where :: "('a \<Rightarrow> bool) \<Rightarrow> 'a list \<Rightarrow> 'a list list" where
  "split_where P [] = [[]]"
| "split_where P (c # cs) =
     (if P c then [] # split_where P cs
      else (case split_where P cs of
              p # ps \<Rightarrow> (c # p) # ps
            | [] \<Rightarrow> [[c]]))"

definition spec_whitespace_tokens :: "jsstring \<Rightarrow> jsstring list" where
  "spec_whitespace_tokens s = filter (\<lambda>t. t \<noteq> []) (split_where is_whitespace s)"

section \<open>Example inputs\<close>

text \<open>
  In the examples a number is named by its token: \<open>Number\<close> is the identity, and so is
  the JSON round trip.
\<close>

definition w_empty :: "jsstring world" where
  "w_empty = \<lparr>last_sync = None, offline_mode = None, embeddings_cache = None,
              skill_names_cache = None, files = (\<lambda>_. None), trace = []\<rparr>"

definition fireball_row :: "jsstring row" where
  "fireball_row = \<lparr>skill_name = u ''Fireball'', embedding_vector = [u ''0.1'', u ''0.2'']\<rparr>"

definition sneak_entry :: "jsstring entry" where
  "sneak_entry = \<lparr>skill = u ''Sneak'', embedding = [u ''0.1'', u ''0.2'', u ''0.3'']\<rparr>"

definition s_loaded :: "jsstring service" where
  "s_loaded = \<lparr>isOfflineMode = False, initialized = True, embeddings = [sneak_entry]\<rparr>"

text \<open>Nothing fails, the remote store holds one row, and the clock advances 1 ms per operation.\<close>

definition env_ok :: "jsstring env" where
  "env_ok = \<lparr>fault = (\<lambda>_. False), clock = (\<lambda>k. 5000000 + int k),
             remote = (\<lambda>_. \<lparr>data = Some [fireball_row], error = None\<rparr>),
             os_web = False, documentDirectory = ''file:///data/'',
             Number = (\<lambda>t. t), jsonify = (\<lambda>x. x)\<rparr>"

text \<open>Every input/output operation fails.\<close>

definition env_down :: "jsstring env" where
  "env_down = env_ok\<lparr>fault := (\<lambda>_. True)\<rparr>"

text \<open>The remote store answers with an error, or with no rows.\<close>

definition env_remote_error :: "jsstring env" where
  "env_remote_error = env_ok\<lparr>remote := (\<lambda>_. \<lparr>data = None, error = Some (u ''timeout'')\<rparr>)\<rparr>"

definition env_no_rows :: "jsstring env" where
  "env_no_rows = env_ok\<lparr>remote := (\<lambda>_. \<lparr>data = Some [], error = None\<rparr>)\<rparr>"

text \<open>
  The object and the world once \<open>setOfflineMode true\<close> has completed on a fresh object,
  and the world after the call of \<open>getEmbeddings\<close> that follows.
\<close>

definition s_offline :: "jsstring service" where
  "s_offline = constructor\<lparr>isOfflineMode := True\<rparr>"

definition w_offline :: "jsstring world" where
  "w_offline = w_empty\<lparr>offline_mode := Some (Json True), trace := [StoreSet OFFLINE_MODE_KEY]\<rparr>"

definition w_offline_loaded :: "jsstring world" where
  "w_offline_loaded =
     w_offline\<lparr>embeddings_cache := Some (Json []),
       files := (files w_offline)(''file:///data/embeddings.csv'' \<mapsto> header),
       trace := [StoreSet OFFLINE_MODE_KEY, StoreGet OFFLINE_MODE_KEY,
                 StoreGet EMBEDDINGS_CACHE_KEY, FileInfo, FileWrite, FileRead,
                 StoreSet EMBEDDINGS_CACHE_KEY, StoreGet EMBEDDINGS_CACHE_KEY]\<rparr>"

text \<open>
  A clock that stands still, the object after a successful pull, and a world whose
  persisted cache holds one entry.
\<close>

definition env_frozen :: "jsstring env" where
  "env_frozen = env_ok\<lparr>clock := (\<lambda>_. 5000000)\<rparr>"

definition s_synced :: "jsstring service" where
  "s_synced = s_loaded\<lparr>embeddings := [to_entry fireball_row]\<rparr>"

definition w_cached :: "jsstring world" where
  "w_cached = w_empty\<lparr>embeddings_cache := Some (Json [sneak_entry])\<rparr>"

text \<open>
  The bundled file with the line \<^verbatim>\<open>Sneak,"0.1 0.2 0.3"\<close>, and one whose embedding field
  has two spaces between its numbers.
\<close>

definition sneak_line :: jsstring where
  "sneak_line = u ''Sneak,'' @ [QUOTE] @ u ''0.1 0.2 0.3'' @ [QUOTE]"


definition w_sneak :: "jsstring world" where
  "w_sneak = w_empty\<lparr>files := (files w_empty)(''file:///data/embeddings.csv'' \<mapsto> header @ sneak_line)\<rparr>"

definition sneak_field :: jsstring where
  "sneak_field = [QUOTE] @ u ''0.1 0.2 0.3'' @ [QUOTE]"

definition double_space_field :: jsstring where
  "double_space_field = [QUOTE] @ u ''0.1  0.2'' @ [QUOTE]"

definition w_double_space :: "jsstring world" where
  "w_double_space =
     w_empty\<lparr>files := (files w_empty)(''file:///data/embeddings.csv'' \<mapsto>
                header @ u ''Sneak,'' @ double_space_field)\<rparr>"

text \<open>
  The world after the first call of \<open>getEmbeddings\<close> on a fresh object, under the clock
  that stands still; and a skill name that holds a comma followed by a carriage return.
\<close>

definition w_cold_synced :: "jsstring world" where
  "w_cold_synced =
     w_empty\<lparr>last_sync := Some (Json 5000000), embeddings_cache := Some (Json []),
       skill_names_cache := Some (Json [u ''Fireball'']),
       files := (files w_empty)(''file:///data/embeddings.csv'' \<mapsto> header),
       trace := [StoreGet OFFLINE_MODE_KEY, StoreGet EMBEDDINGS_CACHE_KEY, FileInfo, FileWrite,
                 FileRead, StoreSet EMBEDDINGS_CACHE_KEY, StoreGet EMBEDDINGS_CACHE_KEY,
                 StoreGet LAST_SYNC_KEY, RemoteSelect, StoreSet LAST_SYNC_KEY,
                 StoreSet SKILL_NAMES_CACHE_KEY]\<rparr>"

definition dead_name :: jsstring where
  "dead_name = [0x61, COMMA, 0x0D]"

section \<open>Frame lemmas\<close>

lemma ensure_file_frame:
  "ensure_file env w = (r, w') \<Longrightarrow>
     \<exists>evs. trace w' = trace w @ evs \<and> RemoteSelect \<notin> set evs \<and>
       last_sync w' = last_sync w \<and> offline_mode w' = offline_mode w \<and>
       embeddings_cache w' = embeddings_cache w \<and> skill_names_cache w' = skill_names_cache w"
  by (auto simp: ensure_file_def io_def split: if_splits bool.splits)

lemma readAsStringAsync_frame:
  "readAsStringAsync env w = (r, w') \<Longrightarrow> w' = w\<lparr>trace := trace w @ [FileRead]\<rparr>"
  by (auto simp: readAsStringAsync_def io_def split: if_splits bool.splits option.splits)

lemma loadFromCsv_frame:
  assumes "loadFromCsv env s w = (r, s', w')"
  shows "\<exists>evs. trace w' = trace w @ evs \<and> RemoteSelect \<notin> set evs \<and>
       last_sync w' = last_sync w \<and> offline_mode w' = offline_mode w \<and>
       skill_names_cache w' = skill_names_cache w \<and>
       isOfflineMode s' = isOfflineMode s \<and> initialized s' = initialized s"
proof -
  obtain r1 w1 where e: "ensure_file env w = (r1, w1)"
    by (cases "ensure_file env w")
  obtain r2 w2 where rd: "readAsStringAsync env w1 = (r2, w2)"
    by (cases "readAsStringAsync env w1")
  from ensure_file_frame[OF e] obtain evs1 where
    f1: "trace w1 = trace w @ evs1" "RemoteSelect \<notin> set evs1" "last_sync w1 = last_sync w"
      "offline_mode w1 = offline_mode w" "skill_names_cache w1 = skill_names_cache w"
    by blast
  have f2: "w2 = w1\<lparr>trace := trace w1 @ [FileRead]\<rparr>"
    by (rule readAsStringAsync_frame[OF rd])
  show ?thesis
    using assms f1 f2 e rd
    by (cases r1; cases r2)
       (auto simp: loadFromCsv_def set_string_def io_def Let_def split: bool.splits)
qed

lemma loadCachedEmbeddings_frame:
  assumes "loadCachedEmbeddings env s w = (r, s', w')"
  shows "\<exists>evs. trace w' = trace w @ StoreGet EMBEDDINGS_CACHE_KEY # evs \<and>
       RemoteSelect \<notin> set evs \<and>
       last_sync w' = last_sync w \<and> offline_mode w' = offline_mode w \<and>
       skill_names_cache w' = skill_names_cache w \<and>
       isOfflineMode s' = isOfflineMode s \<and> initialized s' = initialized s"
proof -
  let ?w1 = "w\<lparr>trace := trace w @ [StoreGet EMBEDDINGS_CACHE_KEY]\<rparr>"
  obtain r2 s2 w2 where l: "loadFromCsv env s ?w1 = (r2, s2, w2)"
    by (cases "loadFromCsv env s ?w1")
  from loadFromCsv_frame[OF l] obtain evs where
    "trace w2 = trace ?w1 @ evs" "RemoteSelect \<notin> set evs" "last_sync w2 = last_sync w"
    "offline_mode w2 = offline_mode w" "skill_names_cache w2 = skill_names_cache w"
    "isOfflineMode s2 = isOfflineMode s" "initialized s2 = initialized s"
    by auto
  then show ?thesis
    using assms l
    by (auto simp: loadCachedEmbeddings_def getString_def io_def
             split: bool.splits option.splits stored.splits)
qed

lemma remote_queries_append:
  "trace w' = trace w @ evs \<Longrightarrow> RemoteSelect \<notin> set evs \<Longrightarrow> remote_queries w' = remote_queries w"
  by (simp add: remote_queries_def count_list_0_iff)

lemma initialize_frame:
  assumes "initialize env s w = (r, s', w')"
  shows "\<exists>evs. trace w' = trace w @ evs \<and> RemoteSelect \<notin> set evs \<and>
       last_sync w' = last_sync w \<and> offline_mode w' = offline_mode w \<and>
       skill_names_cache w' = skill_names_cache w"
proof (cases "initialized s")
  case True
  with assms show ?thesis by (simp add: initialize_def)
next
  case False
  let ?w1 = "w\<lparr>trace := trace w @ [StoreGet OFFLINE_MODE_KEY]\<rparr>"
  show ?thesis
  proof (cases "fault env (length (trace w))")
    case True
    with assms \<open>\<not> initialized s\<close> show ?thesis
      by (auto simp: initialize_def getString_def io_def)
  next
    case nf: False
    show ?thesis
    proof (cases "parse_or False (offline_mode w)")
      case (Inl e)
      with assms nf \<open>\<not> initialized s\<close> show ?thesis
        by (auto simp: initialize_def getString_def io_def)
    next
      case (Inr b)
      obtain r2 s2 w2 where l: "loadCachedEmbeddings env (s\<lparr>isOfflineMode := b\<rparr>) ?w1 = (r2, s2, w2)"
        by (cases "loadCachedEmbeddings env (s\<lparr>isOfflineMode := b\<rparr>) ?w1")
      from loadCachedEmbeddings_frame[OF l] obtain evs where
        "trace w2 = trace ?w1 @ StoreGet EMBEDDINGS_CACHE_KEY # evs" "RemoteSelect \<notin> set evs"
        "last_sync w2 = last_sync w" "offline_mode w2 = offline_mode w"
        "skill_names_cache w2 = skill_names_cache w"
        by auto
      with assms nf \<open>\<not> initialized s\<close> Inr l show ?thesis
        by (auto simp: initialize_def getString_def io_def)
    qed
  qed
qed

lemma initialize_offline:
  assumes "initialize env s w = (r, s', w')"
      and "isOfflineMode s" and "initialized s \<or> offline_mode w = Some (Json True)"
  shows "isOfflineMode s' \<and> (initialized s' \<or> offline_mode w' = Some (Json True))"
proof (cases "initialized s")
  case True
  with assms show ?thesis by (simp add: initialize_def)
next
  case False
  let ?w1 = "w\<lparr>trace := trace w @ [StoreGet OFFLINE_MODE_KEY]\<rparr>"
  obtain r2 s2 w2 where l: "loadCachedEmbeddings env (s\<lparr>isOfflineMode := True\<rparr>) ?w1 = (r2, s2, w2)"
    by (cases "loadCachedEmbeddings env (s\<lparr>isOfflineMode := True\<rparr>) ?w1")
  from loadCachedEmbeddings_frame[OF l] have "isOfflineMode s2" by auto
  with assms False l show ?thesis
    by (auto simp: initialize_def getString_def io_def split: bool.splits)
qed

lemma initialize_cache_read:
  assumes "initialize env s w = (Inr x, s', w')" and "\<not> initialized s"
  shows "StoreGet EMBEDDINGS_CACHE_KEY \<in> set (events_since w w')" and "initialized s'"
proof -
  let ?w1 = "w\<lparr>trace := trace w @ [StoreGet OFFLINE_MODE_KEY]\<rparr>"
  have nf: "\<not> fault env (length (trace w))"
    using assms by (auto simp: initialize_def getString_def io_def split: bool.splits)
  then obtain b where b: "parse_or False (offline_mode w) = Inr b"
    using assms by (auto simp: initialize_def getString_def io_def split: sum.splits)
  obtain r2 s2 w2 where l: "loadCachedEmbeddings env (s\<lparr>isOfflineMode := b\<rparr>) ?w1 = (r2, s2, w2)"
    by (cases "loadCachedEmbeddings env (s\<lparr>isOfflineMode := b\<rparr>) ?w1")
  from loadCachedEmbeddings_frame[OF l] obtain evs where
    "trace w2 = trace ?w1 @ StoreGet EMBEDDINGS_CACHE_KEY # evs" by auto
  moreover have "w' = w2" "s' = s2\<lparr>initialized := True\<rparr>"
    using assms nf b l by (auto simp: initialize_def getString_def io_def)
  ultimately show "StoreGet EMBEDDINGS_CACHE_KEY \<in> set (events_since w w')" and "initialized s'"
    by (auto simp: events_since_def)
qed

lemma getEmbeddings_offline:
  assumes g: "getEmbeddings env s w = (r, s', w')"
      and off: "isOfflineMode s" and init: "initialized s \<or> offline_mode w = Some (Json True)"
  shows "(\<exists>evs. trace w' = trace w @ evs \<and> RemoteSelect \<notin> set evs) \<and>
         isOfflineMode s' \<and> (initialized s' \<or> offline_mode w' = Some (Json True)) \<and>
         ((\<not> initialized s \<or> embeddings s = []) \<and> \<not> isl r
            \<longrightarrow> StoreGet EMBEDDINGS_CACHE_KEY \<in> set (events_since w w'))"
proof -
  obtain r1 s1 w1 where i: "initialize env s w = (r1, s1, w1)"
    by (cases "initialize env s w") auto
  from initialize_frame[OF i] obtain evs1 where
    f1: "trace w1 = trace w @ evs1" "RemoteSelect \<notin> set evs1" "offline_mode w1 = offline_mode w"
    by blast
  from initialize_offline[OF i off init]
  have o1: "isOfflineMode s1" "initialized s1 \<or> offline_mode w1 = Some (Json True)"
    by auto
  show ?thesis
  proof (cases r1)
    case (Inl e)
    with g i have "w' = w1" "s' = s1" "r = Inl e"
      by (auto simp: getEmbeddings_def sync_if_stale_def)
    with f1 o1 show ?thesis
      by auto
  next
    case (Inr x)
    show ?thesis
    proof (cases "embeddings s1 = []")
      case True
      obtain r2 s2 w2 where l: "loadCachedEmbeddings env s1 w1 = (r2, s2, w2)"
        by (cases "loadCachedEmbeddings env s1 w1")
      from loadCachedEmbeddings_frame[OF l] obtain evs2 where
        f2: "trace w2 = trace w1 @ StoreGet EMBEDDINGS_CACHE_KEY # evs2" "RemoteSelect \<notin> set evs2"
          "offline_mode w2 = offline_mode w1" "isOfflineMode s2 = isOfflineMode s1"
          "initialized s2 = initialized s1"
        by blast
      from g i Inr True l f2 o1 have e: "w' = w2" "s' = s2"
        by (auto simp: getEmbeddings_def sync_if_stale_def)
      from f1 f2 have "trace w2 = trace w @ (evs1 @ StoreGet EMBEDDINGS_CACHE_KEY # evs2)"
        "RemoteSelect \<notin> set (evs1 @ StoreGet EMBEDDINGS_CACHE_KEY # evs2)"
        by auto
      with e f2 o1 show ?thesis
        by (auto simp: events_since_def)
    next
      case False
      with g i Inr o1 have e: "w' = w1" "s' = s1"
        by (auto simp: getEmbeddings_def sync_if_stale_def)
      have c: "StoreGet EMBEDDINGS_CACHE_KEY \<in> set (events_since w w')"
        if h: "\<not> initialized s \<or> embeddings s = []"
      proof (cases "initialized s")
        case True
        with i have "s1 = s" by (simp add: initialize_def)
        with h True False show ?thesis by simp
      next
        case ni: False
        from initialize_cache_read(1)[OF i[unfolded Inr] ni] e show ?thesis by simp
      qed
      from e f1 o1 c show ?thesis
        by auto
    qed
  qed
qed

lemma run_getEmbeddings_offline:
  assumes "run_getEmbeddings env n s w = (s', w')"
      and "isOfflineMode s" and "initialized s \<or> offline_mode w = Some (Json True)"
  shows "(\<exists>evs. trace w' = trace w @ evs \<and> RemoteSelect \<notin> set evs) \<and>
         isOfflineMode s' \<and> (initialized s' \<or> offline_mode w' = Some (Json True))"
  using assms
proof (induction n arbitrary: s w)
  case 0
  then show ?case by simp
next
  case (Suc n)
  obtain r1 s1 w1 where g: "getEmbeddings env s w = (r1, s1, w1)"
    by (cases "getEmbeddings env s w") auto
  from getEmbeddings_offline[OF g Suc.prems(2,3)] obtain evs1 where
    h: "trace w1 = trace w @ evs1" "RemoteSelect \<notin> set evs1" "isOfflineMode s1"
    "initialized s1 \<or> offline_mode w1 = Some (Json True)"
    by auto
  from Suc.prems(1) g have "run_getEmbeddings env n s1 w1 = (s', w')"
    by simp
  from Suc.IH[OF this h(3,4)] obtain evs2 where
    k: "trace w' = trace w1 @ evs2" "RemoteSelect \<notin> set evs2" "isOfflineMode s'"
    "initialized s' \<or> offline_mode w' = Some (Json True)"
    by auto
  from h k have "trace w' = trace w @ (evs1 @ evs2)" "RemoteSelect \<notin> set (evs1 @ evs2)"
    by auto
  with k show ?case
    by blast
qed

lemma syncFromCloud_frame:
  assumes "syncFromCloud env s w = (r, s', w')"
  shows "\<exists>evs. trace w' = trace w @ RemoteSelect # evs \<and> RemoteSelect \<notin> set evs \<and>
       embeddings_cache w' = embeddings_cache w \<and> offline_mode w' = offline_mode w \<and>
       files w' = files w \<and>
       isOfflineMode s' = isOfflineMode s \<and> initialized s' = initialized s"
  using assms
  by (auto simp: syncFromCloud_def set_string_def io_def Let_def
           split: bool.splits option.splits if_splits)

lemma syncFromCloud_rows:
  assumes "\<not> fault env (length (trace w))"
      and "error (remote env (length (trace w))) = None"
      and "data (remote env (length (trace w))) = Some rows" and "rows \<noteq> []"
  shows "fst (syncFromCloud env s w) = map to_entry rows"
    and "embeddings (fst (snd (syncFromCloud env s w))) = map to_entry rows"
  using assms
  by (auto simp: syncFromCloud_def set_string_def io_def Let_def split: bool.splits)

lemma syncFromCloud_persists:
  assumes "\<not> fault env (length (trace w))"
      and "error (remote env (length (trace w))) = None"
      and "data (remote env (length (trace w))) = Some rows" and "rows \<noteq> []"
      and "\<not> fault env (length (trace w) + 1)" and "\<not> fault env (length (trace w) + 2)"
  shows "syncFromCloud env s w =
           (map to_entry rows, s\<lparr>embeddings := map to_entry rows\<rparr>,
            w\<lparr>last_sync := Some (Json (clock env (length (trace w) + 1))),
              skill_names_cache := Some (Json (map skill_name rows)),
              trace := trace w @ [RemoteSelect, StoreSet LAST_SYNC_KEY, StoreSet SKILL_NAMES_CACHE_KEY]\<rparr>)"
  using assms
  by (auto simp: syncFromCloud_def set_string_def io_def now_def Let_def split: bool.splits)









section \<open>syncFromCloud\<close>

lemmas run_simps =
  getEmbeddings_def sync_if_stale_def initialize_def loadCachedEmbeddings_def loadFromCsv_def ensure_file_def
  readAsStringAsync_def syncFromCloud_def setOfflineMode_def getString_def set_string_def
  io_def now_def csvPath_def parse_csv_def header_def u_def LF_def jsonify_entries_def

lemmas example_defs =
  env_ok_def env_down_def env_remote_error_def env_no_rows_def w_empty_def s_loaded_def
  constructor_def s_offline_def w_offline_def w_offline_loaded_def
  env_frozen_def s_synced_def w_cold_synced_def w_cached_def fireball_row_def
  sneak_entry_def
  to_entry_def

text \<open>
  C3. If the remote read of \<open>syncFromCloud\<close> fails (the query throws, or its answer carries
  an error), then \<open>syncFromCloud\<close> returns the in-memory set it found, the object is
  unchanged, and so is the world but for the record of the query: neither the sync
  timestamp nor the skill names are written.
\<close>

theorem syncFromCloud_remote_failure:
  assumes "fault env (length (trace w)) \<or> error (remote env (length (trace w))) \<noteq> None"
  shows "syncFromCloud env s w = (embeddings s, s, w\<lparr>trace := trace w @ [RemoteSelect]\<rparr>)"
  using assms by (auto simp: syncFromCloud_def io_def Let_def split: bool.splits)

theorem syncFromCloud_remote_failure_witness:
  "(fault env_down (length (trace w_empty))
      \<or> error (remote env_down (length (trace w_empty))) \<noteq> None) \<and>
   error (remote env_remote_error (length (trace w_empty))) \<noteq> None \<and>
   syncFromCloud env_down s_loaded w_empty
     = ([sneak_entry], s_loaded, w_empty\<lparr>trace := [RemoteSelect]\<rparr>) \<and>
   syncFromCloud env_remote_error s_loaded w_empty
     = ([sneak_entry], s_loaded, w_empty\<lparr>trace := [RemoteSelect]\<rparr>)"
  using syncFromCloud_remote_failure[of env_down w_empty s_loaded]
        syncFromCloud_remote_failure[of env_remote_error w_empty s_loaded]
  by (simp add: env_down_def env_remote_error_def env_ok_def w_empty_def s_loaded_def)

text \<open>
  C9. If the remote query succeeds with an empty row set (or with no data at all), then
  \<open>syncFromCloud\<close> returns the in-memory set it found and changes nothing: the object is
  the same, and the world is the same but for the record of the query.
\<close>

theorem syncFromCloud_empty_rows:
  assumes "\<not> fault env (length (trace w))"
      and "error (remote env (length (trace w))) = None"
      and "data (remote env (length (trace w))) = Some []
             \<or> data (remote env (length (trace w))) = None"
  shows "syncFromCloud env s w = (embeddings s, s, w\<lparr>trace := trace w @ [RemoteSelect]\<rparr>)"
  using assms by (auto simp: syncFromCloud_def io_def Let_def split: bool.splits)

theorem syncFromCloud_empty_rows_witness:
  "\<not> fault env_no_rows (length (trace w_empty)) \<and>
   error (remote env_no_rows (length (trace w_empty))) = None \<and>
   data (remote env_no_rows (length (trace w_empty))) = Some [] \<and>
   syncFromCloud env_no_rows s_loaded w_empty
     = ([sneak_entry], s_loaded, w_empty\<lparr>trace := [RemoteSelect]\<rparr>)"
  using syncFromCloud_empty_rows[of env_no_rows w_empty s_loaded]
  by (simp add: env_no_rows_def env_ok_def w_empty_def s_loaded_def)

text \<open>
  C5 (amended). For every remote query that succeeds with at least one row,
  \<open>syncFromCloud\<close> maps each row to the local shape, in the order of the rows, returns
  the mapped rows and replaces the whole in-memory set with them; it never writes the
  embedding cache, and when the store accepts the two writes it persists exactly the sync
  timestamp and the list of skill names.
\<close>

theorem syncFromCloud_success:
  assumes "\<not> fault env (length (trace w))"
      and "error (remote env (length (trace w))) = None"
      and "data (remote env (length (trace w))) = Some rows" and "rows \<noteq> []"
  shows "fst (syncFromCloud env s w) = map to_entry rows \<and>
         embeddings (fst (snd (syncFromCloud env s w))) = map to_entry rows \<and>
         map skill (map to_entry rows) = map skill_name rows \<and>
         map embedding (map to_entry rows) = map embedding_vector rows \<and>
         embeddings_cache (snd (snd (syncFromCloud env s w))) = embeddings_cache w \<and>
         (\<not> fault env (length (trace w) + 1) \<and> \<not> fault env (length (trace w) + 2) \<longrightarrow>
            syncFromCloud env s w =
              (map to_entry rows, s\<lparr>embeddings := map to_entry rows\<rparr>,
               w\<lparr>last_sync := Some (Json (clock env (length (trace w) + 1))),
                 skill_names_cache := Some (Json (map skill_name rows)),
                 trace := trace w @ [RemoteSelect, StoreSet LAST_SYNC_KEY,
                                     StoreSet SKILL_NAMES_CACHE_KEY]\<rparr>))"
proof -
  obtain r s' w' where e: "syncFromCloud env s w = (r, s', w')"
    by (cases "syncFromCloud env s w")
  from syncFromCloud_frame[OF e] have "embeddings_cache w' = embeddings_cache w"
    by blast
  with e syncFromCloud_rows[OF assms, of s] syncFromCloud_persists[OF assms, of s] show ?thesis
    by (simp add: to_entry_def comp_def)
qed

theorem syncFromCloud_success_witness:
  "\<not> fault env_ok (length (trace w_empty)) \<and>
   error (remote env_ok (length (trace w_empty))) = None \<and>
   data (remote env_ok (length (trace w_empty))) = Some [fireball_row] \<and>
   [fireball_row] \<noteq> [] \<and>
   \<not> fault env_ok (length (trace w_empty) + 1) \<and> \<not> fault env_ok (length (trace w_empty) + 2) \<and>
   syncFromCloud env_ok s_loaded w_empty =
     ([\<lparr>skill = u ''Fireball'', embedding = [u ''0.1'', u ''0.2'']\<rparr>],
      s_loaded\<lparr>embeddings := [\<lparr>skill = u ''Fireball'', embedding = [u ''0.1'', u ''0.2'']\<rparr>]\<rparr>,
      w_empty\<lparr>last_sync := Some (Json 5000001),
        skill_names_cache := Some (Json [u ''Fireball'']),
        trace := [RemoteSelect, StoreSet LAST_SYNC_KEY, StoreSet SKILL_NAMES_CACHE_KEY]\<rparr>)"
  using syncFromCloud_success[of env_ok w_empty "[fireball_row]" s_loaded]
  by (simp add: example_defs)

text \<open>
  As stated for every successful query, the claim fails when the answer has no rows: the
  in-memory set is kept, not replaced by the (empty) mapped rows, and nothing is persisted.
\<close>

theorem syncFromCloud_success_counterexample:
  "\<not> fault env_no_rows (length (trace w_empty)) \<and>
   error (remote env_no_rows (length (trace w_empty))) = None \<and>
   data (remote env_no_rows (length (trace w_empty))) = Some [] \<and>
   embeddings (fst (snd (syncFromCloud env_no_rows s_loaded w_empty))) = [sneak_entry] \<and>
   [sneak_entry] \<noteq> map to_entry [] \<and>
   last_sync (snd (snd (syncFromCloud env_no_rows s_loaded w_empty))) = None \<and>
   skill_names_cache (snd (snd (syncFromCloud env_no_rows s_loaded w_empty))) = None"
  by (simp add: run_simps example_defs)

text \<open>
  C4 (amended). A sync call does not write the embedding set to the persisted cache: it
  leaves the cache blob as it found it. So \<open>loadCachedEmbeddings\<close>, called after a sync
  and reading the store successfully, returns and installs the set decoded from the blob
  persisted before the sync, whatever set the sync loaded.
\<close>

theorem sync_leaves_cache:
  assumes "syncFromCloud env s w = (r, s1, w1)"
      and "embeddings_cache w = Some (Json es)"
      and "\<not> fault env (length (trace w1))"
  shows "embeddings_cache w1 = Some (Json es) \<and>
         loadCachedEmbeddings env s1 w1 =
           (es, s1\<lparr>embeddings := es\<rparr>, w1\<lparr>trace := trace w1 @ [StoreGet EMBEDDINGS_CACHE_KEY]\<rparr>)"
proof -
  from syncFromCloud_frame[OF assms(1)] assms(2) have "embeddings_cache w1 = Some (Json es)"
    by auto
  with assms(3) show ?thesis
    by (simp add: loadCachedEmbeddings_def getString_def io_def)
qed

theorem sync_leaves_cache_witness:
  "syncFromCloud env_ok s_loaded w_cached
     = ([to_entry fireball_row], s_synced,
        w_cached\<lparr>last_sync := Some (Json 5000001),
          skill_names_cache := Some (Json [u ''Fireball'']),
          trace := [RemoteSelect, StoreSet LAST_SYNC_KEY, StoreSet SKILL_NAMES_CACHE_KEY]\<rparr>) \<and>
   embeddings_cache w_cached = Some (Json [sneak_entry]) \<and>
   \<not> fault env_ok 3 \<and>
   fst (loadCachedEmbeddings env_ok s_synced
     (w_cached\<lparr>last_sync := Some (Json 5000001),
          skill_names_cache := Some (Json [u ''Fireball'']),
          trace := [RemoteSelect, StoreSet LAST_SYNC_KEY, StoreSet SKILL_NAMES_CACHE_KEY]\<rparr>))
     = [sneak_entry]"
proof -
  let ?w1 = "w_cached\<lparr>last_sync := Some (Json 5000001),
          skill_names_cache := Some (Json [u ''Fireball'']),
          trace := [RemoteSelect, StoreSet LAST_SYNC_KEY, StoreSet SKILL_NAMES_CACHE_KEY]\<rparr>"
  have a: "syncFromCloud env_ok s_loaded w_cached = ([to_entry fireball_row], s_synced, ?w1)"
    by (simp add: run_simps example_defs)
  have b: "embeddings_cache w_cached = Some (Json [sneak_entry])"
    by (simp add: example_defs)
  have c: "\<not> fault env_ok (length (trace ?w1))"
    by (simp add: example_defs)
  from sync_leaves_cache[OF a b c] a b c show ?thesis
    by (simp add: env_ok_def)
qed

text \<open>
  As stated, the claim fails: the cache holds the Sneak entry, the sync loads the Fireball
  row, and \<open>loadCachedEmbeddings\<close> then returns the Sneak entry.
\<close>

theorem sync_leaves_cache_counterexample:
  "fst (syncFromCloud env_ok s_loaded w_cached) = [to_entry fireball_row] \<and>
   fst (loadCachedEmbeddings env_ok (fst (snd (syncFromCloud env_ok s_loaded w_cached)))
          (snd (snd (syncFromCloud env_ok s_loaded w_cached)))) = [sneak_entry] \<and>
   [sneak_entry] \<noteq> [to_entry fireball_row]"
  by (simp add: run_simps example_defs)

section \<open>Offline mode\<close>

text \<open>
  C1. Once \<open>setOfflineMode true\<close> has completed, no later call of \<open>getEmbeddings\<close>
  issues a remote query, whatever the persisted sync timestamp: the trace of the \<open>n\<close>
  calls that follow and of one more contains no \<open>RemoteSelect\<close>. The local cache is
  still read: a call that finds the object uninitialised or the in-memory set empty, and
  returns, has read the cache key.
\<close>

theorem offline_mode_no_remote_query:
  assumes "setOfflineMode env True s w = (Inr (), s1, w1)"
      and "run_getEmbeddings env n s1 w1 = (s2, w2)"
      and "getEmbeddings env s2 w2 = (r, s3, w3)"
  shows "(\<exists>evs. trace w3 = trace w1 @ evs \<and> RemoteSelect \<notin> set evs) \<and>
         remote_queries w3 = remote_queries w1 \<and>
         ((\<not> initialized s2 \<or> embeddings s2 = []) \<and> \<not> isl r
            \<longrightarrow> StoreGet EMBEDDINGS_CACHE_KEY \<in> set (events_since w2 w3))"
proof -
  from assms(1) have l1: "isOfflineMode s1" "initialized s1 \<or> offline_mode w1 = Some (Json True)"
    by (auto simp: setOfflineMode_def set_string_def io_def Let_def split: bool.splits)
  from run_getEmbeddings_offline[OF assms(2) l1] obtain evs1 where
    l2: "trace w2 = trace w1 @ evs1" "RemoteSelect \<notin> set evs1" "isOfflineMode s2"
    "initialized s2 \<or> offline_mode w2 = Some (Json True)"
    by auto
  from getEmbeddings_offline[OF assms(3) l2(3,4)] obtain evs2 where
    l3: "trace w3 = trace w2 @ evs2" "RemoteSelect \<notin> set evs2"
    "(\<not> initialized s2 \<or> embeddings s2 = []) \<and> \<not> isl r
       \<longrightarrow> StoreGet EMBEDDINGS_CACHE_KEY \<in> set (events_since w2 w3)"
    by auto
  from l2 l3 have t: "trace w3 = trace w1 @ (evs1 @ evs2)" "RemoteSelect \<notin> set (evs1 @ evs2)"
    by auto
  then have "remote_queries w3 = remote_queries w1"
    by (rule remote_queries_append)
  with t l3(3) show ?thesis
    by blast
qed

theorem offline_mode_no_remote_query_witness:
  "setOfflineMode env_ok True constructor w_empty = (Inr (), s_offline, w_offline) \<and>
   run_getEmbeddings env_ok 0 s_offline w_offline = (s_offline, w_offline) \<and>
   getEmbeddings env_ok s_offline w_offline
     = (Inr [], s_offline\<lparr>initialized := True\<rparr>, w_offline_loaded) \<and>
   last_sync w_offline = None \<and>
   remote_queries w_offline_loaded = remote_queries w_offline \<and>
   StoreGet EMBEDDINGS_CACHE_KEY \<in> set (events_since w_offline w_offline_loaded)"
proof -
  have a: "setOfflineMode env_ok True constructor w_empty = (Inr (), s_offline, w_offline)"
    by (simp add: run_simps example_defs)
  have b: "run_getEmbeddings env_ok 0 s_offline w_offline = (s_offline, w_offline)"
    by simp
  have c: "getEmbeddings env_ok s_offline w_offline
             = (Inr [], s_offline\<lparr>initialized := True\<rparr>, w_offline_loaded)"
    by (simp add: run_simps example_defs)
  have d: "\<not> initialized s_offline" "last_sync w_offline = None"
    by (simp_all add: example_defs)
  from offline_mode_no_remote_query[OF a b c] a b c d show ?thesis
    by simp
qed

text \<open>
  C10 (amended). \<open>getOfflineMode\<close> on a freshly constructed object, on which neither
  \<open>initialize\<close> nor \<open>setOfflineMode\<close> has run, returns false whatever the persisted
  flag: it reads the field the constructor set, and takes neither the store nor the
  environment. The persisted flag takes effect when \<open>initialize\<close> runs and reads it.
\<close>

theorem getOfflineMode_before_initialize:
  "getOfflineMode (constructor :: 'n service) = False \<and>
   (\<not> fault env (length (trace w)) \<and> offline_mode (w :: 'n world) = Some (Json b)
      \<longrightarrow> getOfflineMode (fst (snd (initialize env constructor w))) = b)"
proof -
  let ?w1 = "w\<lparr>trace := trace w @ [StoreGet OFFLINE_MODE_KEY]\<rparr>"
  let ?s1 = "(constructor :: 'n service)\<lparr>isOfflineMode := b\<rparr>"
  obtain r2 s2 w2 where l: "loadCachedEmbeddings env ?s1 ?w1 = (r2, s2, w2)"
    by (cases "loadCachedEmbeddings env ?s1 ?w1")
  from loadCachedEmbeddings_frame[OF l] have "isOfflineMode s2 = b"
    by auto
  with l show ?thesis
    by (auto simp: getOfflineMode_def constructor_def initialize_def getString_def io_def)
qed

theorem getOfflineMode_before_initialize_witness:
  "\<not> fault env_ok (length (trace w_offline)) \<and> offline_mode w_offline = Some (Json True) \<and>
   getOfflineMode (constructor :: jsstring service) = False \<and>
   getOfflineMode (fst (snd (initialize env_ok constructor w_offline))) = True"
  using getOfflineMode_before_initialize[of env_ok w_offline True]
  by (simp add: example_defs)

text \<open>
  As stated, for every call before \<open>initialize\<close> has run, the claim fails:
  \<open>setOfflineMode\<close> does not call \<open>initialize\<close>, so after \<open>setOfflineMode true\<close> on a
  fresh object the object is still uninitialised and \<open>getOfflineMode\<close> returns true.
\<close>

theorem getOfflineMode_before_initialize_counterexample:
  "setOfflineMode env_ok True constructor w_empty = (Inr (), s_offline, w_offline) \<and>
   \<not> initialized s_offline \<and> getOfflineMode s_offline = True"
  by (simp add: run_simps example_defs getOfflineMode_def)

section \<open>loadFromCsv\<close>

lemma split_on_nonempty: "split_on sep xs \<noteq> []"
  by (induction xs) (auto split: list.splits)

lemma split_on_first:
  "sep \<notin> set h \<Longrightarrow> split_on sep (h @ sep # rest) = h # split_on sep rest"
  by (induction h) auto

lemma split_on_none: "sep \<notin> set h \<Longrightarrow> split_on sep h = [h]"
  by (induction h) auto

lemma length_split_on: "length (split_on sep xs) = Suc (count_list xs sep)"
  by (induction xs) (auto split: list.splits simp: split_on_nonempty)

lemma split_first_comma_no_comma:
  "COMMA \<notin> set r \<Longrightarrow> split_first_comma r = (r, None)"
  by (induction r) auto

lemma split_first_comma_trailing:
  "COMMA \<notin> set name \<Longrightarrow> split_first_comma (name @ [COMMA]) = (name @ [COMMA], None)"
  by (induction name) auto

lemma takeWhile_run:
  "\<forall>c\<in>set xs. P c \<Longrightarrow> ys = [] \<or> \<not> P (hd ys) \<Longrightarrow> takeWhile P (xs @ ys) = xs"
  by (cases ys) (auto simp: takeWhile_append2)

lemma split_first_comma_fields:
  assumes "COMMA \<notin> set name" and "field \<noteq> []"
      and "\<forall>c\<in>set field. \<not> is_line_terminator c"
      and "eol = [] \<or> is_line_terminator (hd eol)"
  shows "split_first_comma (name @ COMMA # field @ eol) = (name, Some field)"
  using assms
proof (induction name)
  case Nil
  have "takeWhile (\<lambda>d. \<not> is_line_terminator d) (field @ eol) = field"
    using Nil.prems by (intro takeWhile_run) auto
  with Nil.prems show ?case by simp
next
  case (Cons c name)
  then show ?case by auto
qed

lemma comma_not_blank: "\<not> is_blank (name @ COMMA # rest)"
  by (simp add: is_blank_def is_whitespace_def is_line_terminator_def COMMA_def)

lemma parse_rows_kept:
  assumes "name \<noteq> []" and "COMMA \<notin> set name" and "field \<noteq> []"
      and "\<forall>c\<in>set field. \<not> is_line_terminator c"
      and "eol = [] \<or> is_line_terminator (hd eol)"
  shows "parse_rows num ((name @ COMMA # field @ eol) # rs) =
           \<lparr>skill = name,
            embedding = map num (split_on SPACE (filter (\<lambda>c. c \<noteq> QUOTE) field))\<rparr>
           # parse_rows num rs"
  using assms split_first_comma_fields[OF assms(2-5)] comma_not_blank[of name "field @ eol"]
  by simp

lemma parse_rows_no_comma:
  "COMMA \<notin> set r \<Longrightarrow> parse_rows num (r # rs) = parse_rows num rs"
  by (simp add: split_first_comma_no_comma)

lemma parse_rows_no_embedding:
  "COMMA \<notin> set name \<Longrightarrow> parse_rows num ((name @ [COMMA]) # rs) = parse_rows num rs"
  by (simp add: split_first_comma_trailing)

lemma parse_rows_no_skill:
  "field \<noteq> [] \<Longrightarrow> \<not> is_line_terminator (hd field)
     \<Longrightarrow> parse_rows num ((COMMA # field) # rs) = parse_rows num rs"
  by (cases field) auto

lemma dead_commas_iff:
  "dead_commas r \<longleftrightarrow> (\<forall>p q. r = p @ COMMA # q \<longrightarrow> q = [] \<or> is_line_terminator (hd q))"
proof (induction r rule: dead_commas.induct)
  case 1
  show ?case by simp
next
  case (2 c)
  show ?case by (auto simp: Cons_eq_append_conv)
next
  case (3 c d cs)
  show ?case
  proof
    assume a: "dead_commas (c # d # cs)"
    show "\<forall>p q. c # d # cs = p @ COMMA # q \<longrightarrow> q = [] \<or> is_line_terminator (hd q)"
    proof (intro allI impI)
      fix p q
      assume e: "c # d # cs = p @ COMMA # q"
      show "q = [] \<or> is_line_terminator (hd q)"
      proof (cases p)
        case Nil
        with e a show ?thesis by auto
      next
        case (Cons x p')
        with e have e': "d # cs = p' @ COMMA # q" by simp
        from a have "dead_commas (d # cs)" by simp
        with 3 have "\<forall>p q. d # cs = p @ COMMA # q \<longrightarrow> q = [] \<or> is_line_terminator (hd q)"
          by blast
        with e' show ?thesis by blast
      qed
    qed
  next
    assume a: "\<forall>p q. c # d # cs = p @ COMMA # q \<longrightarrow> q = [] \<or> is_line_terminator (hd q)"
    have "is_line_terminator d \<or> c \<noteq> COMMA"
      using a[rule_format, of "[]" "d # cs"] by auto
    moreover have "\<forall>p q. d # cs = p @ COMMA # q \<longrightarrow> q = [] \<or> is_line_terminator (hd q)"
      using a[rule_format, of "c # p" for p] by auto
    ultimately show "dead_commas (c # d # cs)"
      using 3 by simp
  qed
qed

lemma split_first_comma_dead:
  "dead_commas r \<Longrightarrow> split_first_comma r = (r, None)"
  by (induction r rule: dead_commas.induct) (auto simp: takeWhile_eq_Nil_iff)

lemma split_first_comma_match:
  assumes "dead_commas (pre @ [COMMA])" and "field \<noteq> []"
      and "\<forall>c\<in>set field. \<not> is_line_terminator c"
      and "eol = [] \<or> is_line_terminator (hd eol)"
  shows "split_first_comma (pre @ COMMA # field @ eol) = (pre, Some field)"
  using assms
proof (induction pre)
  case Nil
  have "takeWhile (\<lambda>d. \<not> is_line_terminator d) (field @ eol) = field"
    using Nil.prems by (intro takeWhile_run) auto
  with Nil.prems show ?case by simp
next
  case (Cons c pre)
  show ?case
  proof (cases pre)
    case Nil
    with Cons.prems have "c \<noteq> COMMA"
      by (auto simp: is_line_terminator_def COMMA_def)
    with Cons Nil show ?thesis by simp
  next
    case (Cons d pre')
    with Cons.prems have d: "is_line_terminator d \<or> c \<noteq> COMMA" "dead_commas (pre @ [COMMA])"
      by auto
    from d(1) Cons have "\<not> (c = COMMA \<and>
        takeWhile (\<lambda>d. \<not> is_line_terminator d) (pre @ COMMA # field @ eol) \<noteq> [])"
      by auto
    with Cons.IH[OF d(2) Cons.prems(2-4)] show ?thesis
      by simp
  qed
qed

lemma rows_covered:
  "dead_commas r \<or>
   (\<exists>pre field eol. r = pre @ COMMA # field @ eol \<and> dead_commas (pre @ [COMMA]) \<and>
      field \<noteq> [] \<and> (\<forall>c\<in>set field. \<not> is_line_terminator c) \<and>
      (eol = [] \<or> is_line_terminator (hd eol)))"
proof (induction r)
  case Nil
  show ?case by simp
next
  case (Cons c cs)
  let ?P = "\<lambda>d. \<not> is_line_terminator d"
  show ?case
  proof (cases "c = COMMA \<and> cs \<noteq> [] \<and> \<not> is_line_terminator (hd cs)")
    case True
    let ?f = "takeWhile ?P cs" and ?e = "dropWhile ?P cs"
    have "c # cs = [] @ COMMA # ?f @ ?e" using True by simp
    moreover have "dead_commas ([] @ [COMMA])" by simp
    moreover have "?f \<noteq> []" using True by (cases cs) auto
    moreover have "\<forall>x\<in>set ?f. \<not> is_line_terminator x" by (auto dest: set_takeWhileD)
    moreover have "?e = [] \<or> is_line_terminator (hd ?e)"
      using hd_dropWhile[of ?P cs] by auto
    ultimately show ?thesis by blast
  next
    case False
    from Cons.IH show ?thesis
    proof
      assume "dead_commas cs"
      with False have "dead_commas (c # cs)" by (cases cs) auto
      then show ?thesis ..
    next
      assume "\<exists>pre field eol. cs = pre @ COMMA # field @ eol \<and> dead_commas (pre @ [COMMA]) \<and>
        field \<noteq> [] \<and> (\<forall>c\<in>set field. \<not> is_line_terminator c) \<and>
        (eol = [] \<or> is_line_terminator (hd eol))"
      then obtain pre field eol where d: "cs = pre @ COMMA # field @ eol"
        "dead_commas (pre @ [COMMA])" "field \<noteq> []" "\<forall>c\<in>set field. \<not> is_line_terminator c"
        "eol = [] \<or> is_line_terminator (hd eol)"
        by blast
      have "dead_commas ((c # pre) @ [COMMA])"
        using False d(1,2) by (cases pre) (auto simp: is_line_terminator_def COMMA_def)
      moreover have "c # cs = (c # pre) @ COMMA # field @ eol"
        using d(1) by simp
      ultimately show ?thesis
        using d(3-5) by blast
    qed
  qed
qed

lemma parse_rows_dead:
  "dead_commas r \<Longrightarrow> parse_rows num (r # rs) = parse_rows num rs"
  by (simp add: split_first_comma_dead)

lemma parse_rows_match:
  assumes "dead_commas (pre @ [COMMA])" and "field \<noteq> []"
      and "\<forall>c\<in>set field. \<not> is_line_terminator c"
      and "eol = [] \<or> is_line_terminator (hd eol)"
  shows "parse_rows num ((pre @ COMMA # field @ eol) # rs) =
           (if pre = [] then parse_rows num rs
            else \<lparr>skill = pre,
                  embedding = map num (split_on SPACE (filter (\<lambda>c. c \<noteq> QUOTE) field))\<rparr>
                 # parse_rows num rs)"
  using split_first_comma_match[OF assms] comma_not_blank[of pre "field @ eol"]
  by simp

lemma parse_csv_header:
  "LF \<notin> set h \<Longrightarrow> parse_csv num (h @ LF # rest) = parse_rows num (split_on LF rest)"
  by (simp add: parse_csv_def split_on_first)

lemma loadFromCsv_parses:
  assumes "files w (csvPath env) = Some content" and "\<forall>k\<ge>length (trace w). \<not> fault env k"
  shows "fst (loadFromCsv env s w) = parse_csv (Number env) content \<and>
         embeddings (fst (snd (loadFromCsv env s w))) = parse_csv (Number env) content"
proof -
  from assms(2) have "\<not> fault env (length (trace w))" "\<not> fault env (Suc (length (trace w)))"
    "\<not> fault env (Suc (Suc (length (trace w))))"
    by simp_all
  with assms(1) show ?thesis
    by (simp add: loadFromCsv_def ensure_file_def readAsStringAsync_def set_string_def io_def Let_def)
qed

lemmas csv_defs =
  sneak_line_def sneak_field_def w_sneak_def double_space_field_def w_double_space_def
  QUOTE_def COMMA_def SPACE_def is_blank_def is_whitespace_def is_line_terminator_def
  spec_whitespace_tokens_def

text \<open>
  C6 (amended). When the file can be read, \<open>loadFromCsv\<close> returns and installs the parse of
  its content. The parse skips the first line, whatever it holds, and the blank lines, and
  no line makes it fail. A row is split at its first comma that is followed by a character
  other than a line terminator: the skill is the text before that comma, and the embedding
  field runs from there to the next line terminator, so a carriage return at the end of
  the row is dropped. A row with no such comma (no comma at all, or every comma at the end
  of the row or before a line terminator) has no embedding field and is skipped; a row
  that starts with that comma has no skill and is skipped; every row is of one of these
  kinds. A kept row gives one entry, with its skill and with one number for each piece of
  the field, quotes removed, between single spaces: as many numbers as spaces plus one.
  The line \<^verbatim>\<open>Sneak,"0.1 0.2 0.3"\<close> gives the entry Sneak with the numbers read from
  0.1, 0.2 and 0.3. The comma, the quote, the space and the line feed are the characters
  U+002C, U+0022, U+0020 and U+000A, and the line terminators are U+000A, U+000D, U+2028
  and U+2029.
\<close>

theorem loadFromCsv_parsing:
  "(COMMA = 0x2C \<and> QUOTE = 0x22 \<and> SPACE = 0x20 \<and> LF = 0x0A \<and>
    (is_line_terminator ch \<longleftrightarrow> ch = 0x0A \<or> ch = 0x0D \<or> ch = 0x2028 \<or> ch = 0x2029)) \<and>
   (files w (csvPath env) = Some content \<and> (\<forall>k\<ge>length (trace w). \<not> fault env k) \<longrightarrow>
      fst (loadFromCsv env s w) = parse_csv (Number env) content \<and>
      embeddings (fst (snd (loadFromCsv env s w))) = parse_csv (Number env) content) \<and>
   (LF \<notin> set h \<longrightarrow>
      parse_csv num h = [] \<and>
      parse_csv num (h @ LF # rest) = parse_rows num (split_on LF rest)) \<and>
   (sep \<notin> set piece \<longrightarrow>
      split_on sep piece = [piece] \<and>
      split_on sep (piece @ sep # others) = piece # split_on sep others) \<and>
   parse_rows num [] = [] \<and>
   (is_blank r \<longrightarrow> parse_rows num (r # rs) = parse_rows num rs) \<and>
   (COMMA \<notin> set r \<longrightarrow> parse_rows num (r # rs) = parse_rows num rs) \<and>
   (COMMA \<notin> set name \<longrightarrow> parse_rows num ((name @ [COMMA]) # rs) = parse_rows num rs) \<and>
   (field \<noteq> [] \<and> \<not> is_line_terminator (hd field) \<longrightarrow>
      parse_rows num ((COMMA # field) # rs) = parse_rows num rs) \<and>
   (name \<noteq> [] \<and> COMMA \<notin> set name \<and> field \<noteq> [] \<and>
    (\<forall>c\<in>set field. \<not> is_line_terminator c) \<and> (eol = [] \<or> is_line_terminator (hd eol)) \<longrightarrow>
      parse_rows num ((name @ COMMA # field @ eol) # rs) =
        \<lparr>skill = name,
         embedding = map num (split_on SPACE (filter (\<lambda>c. c \<noteq> QUOTE) field))\<rparr>
        # parse_rows num rs \<and>
      length (split_on SPACE (filter (\<lambda>c. c \<noteq> QUOTE) field)) =
        Suc (count_list (filter (\<lambda>c. c \<noteq> QUOTE) field) SPACE)) \<and>
   (dead_commas m \<longleftrightarrow>
      (\<forall>p q. m = p @ COMMA # q \<longrightarrow> q = [] \<or> is_line_terminator (hd q))) \<and>
   (dead_commas d \<longrightarrow> parse_rows num (d # rs) = parse_rows num rs) \<and>
   (dead_commas (pre @ [COMMA]) \<and> field \<noteq> [] \<and>
    (\<forall>c\<in>set field. \<not> is_line_terminator c) \<and> (eol = [] \<or> is_line_terminator (hd eol)) \<longrightarrow>
      parse_rows num ((pre @ COMMA # field @ eol) # rs) =
        (if pre = [] then parse_rows num rs
         else \<lparr>skill = pre,
               embedding = map num (split_on SPACE (filter (\<lambda>c. c \<noteq> QUOTE) field))\<rparr>
              # parse_rows num rs)) \<and>
   (dead_commas x \<or>
    (\<exists>pre field eol. x = pre @ COMMA # field @ eol \<and> dead_commas (pre @ [COMMA]) \<and>
       field \<noteq> [] \<and> (\<forall>c\<in>set field. \<not> is_line_terminator c) \<and>
       (eol = [] \<or> is_line_terminator (hd eol)))) \<and>
   parse_csv num (header @ u ''Sneak,'' @ [QUOTE] @ u ''0.1 0.2 0.3'' @ [QUOTE]) =
     [\<lparr>skill = u ''Sneak'', embedding = [num (u ''0.1''), num (u ''0.2''), num (u ''0.3'')]\<rparr>]"
proof -
  have ex: "parse_csv num (header @ u ''Sneak,'' @ [QUOTE] @ u ''0.1 0.2 0.3'' @ [QUOTE]) =
     [\<lparr>skill = u ''Sneak'', embedding = [num (u ''0.1''), num (u ''0.2''), num (u ''0.3'')]\<rparr>]"
    by (simp add: parse_csv_def header_def u_def LF_def csv_defs)
  have hd: "LF \<notin> set h \<Longrightarrow> parse_csv num h = []"
    by (simp add: parse_csv_def split_on_none)
  have special: "(files w (csvPath env) = Some content \<and> (\<forall>k\<ge>length (trace w). \<not> fault env k) \<longrightarrow>
      fst (loadFromCsv env s w) = parse_csv (Number env) content \<and>
      embeddings (fst (snd (loadFromCsv env s w))) = parse_csv (Number env) content) \<and>
   (LF \<notin> set h \<longrightarrow>
      parse_csv num h = [] \<and>
      parse_csv num (h @ LF # rest) = parse_rows num (split_on LF rest)) \<and>
   (is_blank r \<longrightarrow> parse_rows num (r # rs) = parse_rows num rs) \<and>
   (COMMA \<notin> set r \<longrightarrow> parse_rows num (r # rs) = parse_rows num rs) \<and>
   (COMMA \<notin> set name \<longrightarrow> parse_rows num ((name @ [COMMA]) # rs) = parse_rows num rs) \<and>
   (field \<noteq> [] \<and> \<not> is_line_terminator (hd field) \<longrightarrow>
      parse_rows num ((COMMA # field) # rs) = parse_rows num rs) \<and>
   (name \<noteq> [] \<and> COMMA \<notin> set name \<and> field \<noteq> [] \<and>
    (\<forall>c\<in>set field. \<not> is_line_terminator c) \<and> (eol = [] \<or> is_line_terminator (hd eol)) \<longrightarrow>
      parse_rows num ((name @ COMMA # field @ eol) # rs) =
        \<lparr>skill = name,
         embedding = map num (split_on SPACE (filter (\<lambda>c. c \<noteq> QUOTE) field))\<rparr>
        # parse_rows num rs \<and>
      length (split_on SPACE (filter (\<lambda>c. c \<noteq> QUOTE) field)) =
        Suc (count_list (filter (\<lambda>c. c \<noteq> QUOTE) field) SPACE))"
    using loadFromCsv_parses[of w env content s] parse_csv_header[of h num rest] hd
      parse_rows_no_comma[of r num rs] parse_rows_no_embedding[of name num rs]
      parse_rows_no_skill[of field num rs] parse_rows_kept[of name field eol num rs]
      length_split_on[of SPACE "filter (\<lambda>c. c \<noteq> QUOTE) field"]
    by simp
  have sp: "sep \<notin> set piece \<longrightarrow>
      split_on sep piece = [piece] \<and>
      split_on sep (piece @ sep # others) = piece # split_on sep others"
    by (simp add: split_on_none split_on_first)
  have nil: "parse_rows num [] = []"
    by simp
  have a: "dead_commas d \<longrightarrow> parse_rows num (d # rs) = parse_rows num rs"
    using parse_rows_dead[of d num rs] by blast
  have b: "dead_commas (pre @ [COMMA]) \<and> field \<noteq> [] \<and>
    (\<forall>c\<in>set field. \<not> is_line_terminator c) \<and> (eol = [] \<or> is_line_terminator (hd eol)) \<longrightarrow>
      parse_rows num ((pre @ COMMA # field @ eol) # rs) =
        (if pre = [] then parse_rows num rs
         else \<lparr>skill = pre,
               embedding = map num (split_on SPACE (filter (\<lambda>c. c \<noteq> QUOTE) field))\<rparr>
              # parse_rows num rs)"
    using parse_rows_match[of pre field eol num rs] by blast
  have chars: "COMMA = 0x2C \<and> QUOTE = 0x22 \<and> SPACE = 0x20 \<and> LF = 0x0A \<and>
   (is_line_terminator ch \<longleftrightarrow> ch = 0x0A \<or> ch = 0x0D \<or> ch = 0x2028 \<or> ch = 0x2029)"
    by (simp add: COMMA_def QUOTE_def SPACE_def LF_def is_line_terminator_def)
  show ?thesis
  proof (rule conjI)
    show "COMMA = 0x2C \<and> QUOTE = 0x22 \<and> SPACE = 0x20 \<and> LF = 0x0A \<and>
      (is_line_terminator ch \<longleftrightarrow> ch = 0x0A \<or> ch = 0x0D \<or> ch = 0x2028 \<or> ch = 0x2029)"
      by (rule chars)
  next
    from special sp nil dead_commas_iff[of m] a b rows_covered[of x] ex
    show "(files w (csvPath env) = Some content \<and> (\<forall>k\<ge>length (trace w). \<not> fault env k) \<longrightarrow>
      fst (loadFromCsv env s w) = parse_csv (Number env) content \<and>
      embeddings (fst (snd (loadFromCsv env s w))) = parse_csv (Number env) content) \<and>
   (LF \<notin> set h \<longrightarrow>
      parse_csv num h = [] \<and>
      parse_csv num (h @ LF # rest) = parse_rows num (split_on LF rest)) \<and>
   (sep \<notin> set piece \<longrightarrow>
      split_on sep piece = [piece] \<and>
      split_on sep (piece @ sep # others) = piece # split_on sep others) \<and>
   parse_rows num [] = [] \<and>
   (is_blank r \<longrightarrow> parse_rows num (r # rs) = parse_rows num rs) \<and>
   (COMMA \<notin> set r \<longrightarrow> parse_rows num (r # rs) = parse_rows num rs) \<and>
   (COMMA \<notin> set name \<longrightarrow> parse_rows num ((name @ [COMMA]) # rs) = parse_rows num rs) \<and>
   (field \<noteq> [] \<and> \<not> is_line_terminator (hd field) \<longrightarrow>
      parse_rows num ((COMMA # field) # rs) = parse_rows num rs) \<and>
   (name \<noteq> [] \<and> COMMA \<notin> set name \<and> field \<noteq> [] \<and>
    (\<forall>c\<in>set field. \<not> is_line_terminator c) \<and> (eol = [] \<or> is_line_terminator (hd eol)) \<longrightarrow>
      parse_rows num ((name @ COMMA # field @ eol) # rs) =
        \<lparr>skill = name,
         embedding = map num (split_on SPACE (filter (\<lambda>c. c \<noteq> QUOTE) field))\<rparr>
        # parse_rows num rs \<and>
      length (split_on SPACE (filter (\<lambda>c. c \<noteq> QUOTE) field)) =
        Suc (count_list (filter (\<lambda>c. c \<noteq> QUOTE) field) SPACE)) \<and>
   (dead_commas m \<longleftrightarrow>
      (\<forall>p q. m = p @ COMMA # q \<longrightarrow> q = [] \<or> is_line_terminator (hd q))) \<and>
   (dead_commas d \<longrightarrow> parse_rows num (d # rs) = parse_rows num rs) \<and>
   (dead_commas (pre @ [COMMA]) \<and> field \<noteq> [] \<and>
    (\<forall>c\<in>set field. \<not> is_line_terminator c) \<and> (eol = [] \<or> is_line_terminator (hd eol)) \<longrightarrow>
      parse_rows num ((pre @ COMMA # field @ eol) # rs) =
        (if pre = [] then parse_rows num rs
         else \<lparr>skill = pre,
               embedding = map num (split_on SPACE (filter (\<lambda>c. c \<noteq> QUOTE) field))\<rparr>
              # parse_rows num rs)) \<and>
   (dead_commas x \<or>
    (\<exists>pre field eol. x = pre @ COMMA # field @ eol \<and> dead_commas (pre @ [COMMA]) \<and>
       field \<noteq> [] \<and> (\<forall>c\<in>set field. \<not> is_line_terminator c) \<and>
       (eol = [] \<or> is_line_terminator (hd eol)))) \<and>
   parse_csv num (header @ u ''Sneak,'' @ [QUOTE] @ u ''0.1 0.2 0.3'' @ [QUOTE]) =
     [\<lparr>skill = u ''Sneak'', embedding = [num (u ''0.1''), num (u ''0.2''), num (u ''0.3'')]\<rparr>]"
      by blast
  qed
qed

theorem loadFromCsv_parsing_witness:
  "(files w_sneak (csvPath env_ok) = Some (header @ sneak_line) \<and>
    (\<forall>k. \<not> fault env_ok k) \<and>
    LF \<notin> set (u ''Skill,Embedding'') \<and> SPACE \<notin> set (u ''0.1'') \<and>
    is_blank (u ''  '') \<and> COMMA \<notin> set (u ''Sneak'') \<and>
    sneak_field \<noteq> [] \<and> \<not> is_line_terminator (hd sneak_field) \<and> u ''Sneak'' \<noteq> [] \<and>
    list_all (\<lambda>c. \<not> is_line_terminator c) sneak_field \<and> is_line_terminator (hd [0x0D]) \<and>
    dead_commas (u ''Sneak,'' @ [0x0D]) \<and> dead_commas (dead_name @ [COMMA])) \<and>
   (fst (loadFromCsv env_ok constructor w_sneak) = parse_csv (Number env_ok) (header @ sneak_line) \<and>
    embeddings (fst (snd (loadFromCsv env_ok constructor w_sneak)))
      = parse_csv (Number env_ok) (header @ sneak_line) \<and>
    parse_csv (\<lambda>t. t) (u ''Skill,Embedding'') = [] \<and>
    parse_csv (\<lambda>t. t) (u ''Skill,Embedding'' @ LF # sneak_line)
      = parse_rows (\<lambda>t. t) (split_on LF sneak_line) \<and>
    split_on SPACE (u ''0.1'') = [u ''0.1''] \<and>
    split_on SPACE (u ''0.1'' @ SPACE # u ''0.2'') = u ''0.1'' # split_on SPACE (u ''0.2'') \<and>
    parse_rows (\<lambda>t. t) [u ''  '', sneak_line] = parse_rows (\<lambda>t. t) [sneak_line] \<and>
    parse_rows (\<lambda>t. t) [u ''Sneak'' @ [COMMA], sneak_line] = parse_rows (\<lambda>t. t) [sneak_line] \<and>
    parse_rows (\<lambda>t. t) [COMMA # sneak_field, sneak_line] = parse_rows (\<lambda>t. t) [sneak_line] \<and>
    parse_rows (\<lambda>t. t) [u ''Sneak'' @ COMMA # sneak_field @ [0x0D], sneak_line]
      = \<lparr>skill = u ''Sneak'',
         embedding = map (\<lambda>t. t) (split_on SPACE (filter (\<lambda>c. c \<noteq> QUOTE) sneak_field))\<rparr>
        # parse_rows (\<lambda>t. t) [sneak_line] \<and>
    parse_rows (\<lambda>t. t) [u ''Sneak,'' @ [0x0D], sneak_line] = parse_rows (\<lambda>t. t) [sneak_line] \<and>
    parse_rows (\<lambda>t. t) [dead_name @ COMMA # sneak_field @ [0x0D], sneak_line]
      = (if dead_name = [] then parse_rows (\<lambda>t. t) [sneak_line]
         else \<lparr>skill = dead_name,
               embedding = map (\<lambda>t. t) (split_on SPACE (filter (\<lambda>c. c \<noteq> QUOTE) sneak_field))\<rparr>
              # parse_rows (\<lambda>t. t) [sneak_line])) \<and>
   (parse_csv (Number env_ok) (header @ sneak_line) = [sneak_entry] \<and>
    parse_rows (\<lambda>t. t) [sneak_line] = [sneak_entry] \<and>
    split_on SPACE (filter (\<lambda>c. c \<noteq> QUOTE) sneak_field) = [u ''0.1'', u ''0.2'', u ''0.3''] \<and>
    dead_name \<noteq> [] \<and>
    parse_rows (\<lambda>t. t) [dead_name @ COMMA # u ''b c'']
      = [\<lparr>skill = dead_name, embedding = [u ''b'', u ''c'']\<rparr>])"
proof -
  have h: "files w_sneak (csvPath env_ok) = Some (header @ sneak_line) \<and>
    (\<forall>k\<ge>length (trace w_sneak). \<not> fault env_ok k) \<and>
    LF \<notin> set (u ''Skill,Embedding'') \<and> SPACE \<notin> set (u ''0.1'') \<and>
    is_blank (u ''  '') \<and> COMMA \<notin> set (u ''Sneak'') \<and>
    sneak_field \<noteq> [] \<and> \<not> is_line_terminator (hd sneak_field) \<and> u ''Sneak'' \<noteq> [] \<and>
    (\<forall>c\<in>set sneak_field. \<not> is_line_terminator c) \<and> is_line_terminator (hd [0x0D]) \<and>
    dead_commas (u ''Sneak,'' @ [0x0D]) \<and> dead_commas (dead_name @ [COMMA])"
    by (simp add: example_defs csv_defs csvPath_def u_def LF_def dead_name_def)
  have v: "parse_csv (Number env_ok) (header @ sneak_line) = [sneak_entry] \<and>
    parse_rows (\<lambda>t. t) [sneak_line] = [sneak_entry] \<and>
    split_on SPACE (filter (\<lambda>c. c \<noteq> QUOTE) sneak_field) = [u ''0.1'', u ''0.2'', u ''0.3''] \<and>
    dead_name \<noteq> [] \<and>
    parse_rows (\<lambda>t. t) [dead_name @ COMMA # u ''b c'']
      = [\<lparr>skill = dead_name, embedding = [u ''b'', u ''c'']\<rparr>]"
    by (simp add: example_defs csv_defs parse_csv_def header_def u_def LF_def dead_name_def)
  note t = loadFromCsv_parsing[where w = w_sneak and env = env_ok
      and content = "header @ sneak_line" and s = constructor and h = "u ''Skill,Embedding''"
      and rest = sneak_line and num = "\<lambda>t. t" and r = "u ''  ''" and rs = "[sneak_line]"
      and name = "u ''Sneak''" and field = sneak_field and eol = "[0x0D]"
      and sep = SPACE and piece = "u ''0.1''" and others = "u ''0.2''"
      and d = "u ''Sneak,'' @ [0x0D]" and pre = dead_name]
  note t = t[THEN conjunct2]
  from t h have c: "fst (loadFromCsv env_ok constructor w_sneak) = parse_csv (Number env_ok) (header @ sneak_line) \<and>
    embeddings (fst (snd (loadFromCsv env_ok constructor w_sneak)))
      = parse_csv (Number env_ok) (header @ sneak_line) \<and>
    parse_csv (\<lambda>t. t) (u ''Skill,Embedding'') = [] \<and>
    parse_csv (\<lambda>t. t) (u ''Skill,Embedding'' @ LF # sneak_line)
      = parse_rows (\<lambda>t. t) (split_on LF sneak_line) \<and>
    split_on SPACE (u ''0.1'') = [u ''0.1''] \<and>
    split_on SPACE (u ''0.1'' @ SPACE # u ''0.2'') = u ''0.1'' # split_on SPACE (u ''0.2'') \<and>
    parse_rows (\<lambda>t. t) [u ''  '', sneak_line] = parse_rows (\<lambda>t. t) [sneak_line] \<and>
    parse_rows (\<lambda>t. t) [u ''Sneak'' @ [COMMA], sneak_line] = parse_rows (\<lambda>t. t) [sneak_line] \<and>
    parse_rows (\<lambda>t. t) [COMMA # sneak_field, sneak_line] = parse_rows (\<lambda>t. t) [sneak_line] \<and>
    parse_rows (\<lambda>t. t) [u ''Sneak'' @ COMMA # sneak_field @ [0x0D], sneak_line]
      = \<lparr>skill = u ''Sneak'',
         embedding = map (\<lambda>t. t) (split_on SPACE (filter (\<lambda>c. c \<noteq> QUOTE) sneak_field))\<rparr>
        # parse_rows (\<lambda>t. t) [sneak_line] \<and>
    parse_rows (\<lambda>t. t) [u ''Sneak,'' @ [0x0D], sneak_line] = parse_rows (\<lambda>t. t) [sneak_line] \<and>
    parse_rows (\<lambda>t. t) [dead_name @ COMMA # sneak_field @ [0x0D], sneak_line]
      = (if dead_name = [] then parse_rows (\<lambda>t. t) [sneak_line]
         else \<lparr>skill = dead_name,
               embedding = map (\<lambda>t. t) (split_on SPACE (filter (\<lambda>c. c \<noteq> QUOTE) sneak_field))\<rparr>
              # parse_rows (\<lambda>t. t) [sneak_line])"
    by blast
  have h': "\<forall>k. \<not> fault env_ok k" "list_all (\<lambda>c. \<not> is_line_terminator c) sneak_field"
    by (simp_all add: example_defs csv_defs u_def)
  from h h' c v show ?thesis
    by blast
qed

text \<open>
  As stated, with whitespace-separated tokens, the claim fails on two spaces in a row: the
  field \<^verbatim>\<open>"0.1  0.2"\<close> has two such tokens, and the vector has three numbers, the second
  read from the empty string.
\<close>

theorem loadFromCsv_parsing_counterexample:
  "fst (loadFromCsv env_ok constructor w_double_space)
     = [\<lparr>skill = u ''Sneak'', embedding = [u ''0.1'', [], u ''0.2'']\<rparr>] \<and>
   spec_whitespace_tokens (filter (\<lambda>c. c \<noteq> QUOTE) double_space_field) = [u ''0.1'', u ''0.2''] \<and>
   length (embedding (hd (fst (loadFromCsv env_ok constructor w_double_space)))) = 3 \<and>
   length (spec_whitespace_tokens (filter (\<lambda>c. c \<noteq> QUOTE) double_space_field)) = 2"
  by (simp add: run_simps example_defs csv_defs Let_def)

section \<open>Staleness\<close>




section \<open>Failures of the store\<close>

text \<open>
  C7. \<open>getEmbeddings\<close> does let a failure through: \<open>initialize\<close> reads and parses the
  offline flag, and \<open>getEmbeddings\<close> the sync timestamp, outside any handler. On a fresh
  object a store whose read fails, or a persisted flag that is not JSON, makes the call
  fail; so does a persisted timestamp that is not JSON on an initialised online object.
\<close>

theorem getEmbeddings_propagates_store_failure:
  "getEmbeddings env_down constructor w_empty
     = (Inl StoreError, constructor, w_empty\<lparr>trace := [StoreGet OFFLINE_MODE_KEY]\<rparr>) \<and>
   getEmbeddings env_ok constructor (w_empty\<lparr>offline_mode := Some Malformed\<rparr>)
     = (Inl SyntaxError, constructor,
        w_empty\<lparr>offline_mode := Some Malformed, trace := [StoreGet OFFLINE_MODE_KEY]\<rparr>) \<and>
   getEmbeddings env_ok s_loaded (w_empty\<lparr>last_sync := Some Malformed\<rparr>)
     = (Inl SyntaxError, s_loaded,
        w_empty\<lparr>last_sync := Some Malformed, trace := [StoreGet LAST_SYNC_KEY]\<rparr>)"
  by (simp add: run_simps example_defs)

text \<open>
  C8. \<open>setOfflineMode\<close> always sets the in-memory flag, which \<open>getOfflineMode\<close> then
  returns; but the write to the store is awaited outside any handler, so a store whose
  write fails makes the call fail.
\<close>

theorem setOfflineMode_propagates_store_failure:
  "getOfflineMode (fst (snd (setOfflineMode env flag s w))) = flag \<and>
   setOfflineMode env_down True constructor w_empty
     = (Inl StoreError, constructor\<lparr>isOfflineMode := True\<rparr>,
        w_empty\<lparr>trace := [StoreSet OFFLINE_MODE_KEY]\<rparr>)"
  by (simp add: run_simps example_defs getOfflineMode_def split: bool.splits)

end
